theory Spec2Isabelle
  imports Complex_Main
begin

section \<open>Data model of the math game (src/src/App.js)\<close>

text \<open>
  The component keeps eight \<open>useState\<close> cells and one timer reference. JavaScript numbers
  that are built from integer literals by \<open>+\<close>, \<open>-\<close>, \<open>*\<close> and \<open>Math.floor\<close> are
  modelled as \<open>int\<close>; the result of the true division \<open>num1 / num2\<close> and the value of
  \<open>Math.random()\<close> are modelled as \<open>rat\<close> (every finite double is a rational). All
  values that occur stay far below \<open>2 ^ 53\<close>, where double arithmetic on integers is exact.
\<close>

text \<open>The operator strings \<open>'+'\<close>, \<open>'-'\<close>, \<open>'*'\<close>, \<open>'/'\<close>.\<close>

datatype operator = Plus | Minus | Times | Divide

text \<open>
  The five strings that \<open>setProblemType\<close> is ever called with: \<open>'addition'\<close>,
  \<open>'subtraction'\<close>, \<open>'multiplication'\<close>, \<open>'division'\<close>, \<open>'random'\<close>.
\<close>

datatype problem_type = Addition | Subtraction | Multiplication | Division | Random

text \<open>The object \<open>{ num1, num2, operator, answer }\<close> stored by \<open>setCurrentProblem\<close>.\<close>

record problem =
  num1 :: int
  num2 :: int
  operator :: operator
  answer :: rat

text \<open>
  The feedback message. The source stores a string; the three shapes it can take are
  the empty string, \<open>'Correct! +30s'\<close> and the template
  \<open>`Incorrect! -10s. The answer was ${currentProblem.answer}`\<close>, kept here as a
  constructor that carries the interpolated number.
\<close>

datatype message = NoMessage | CorrectMsg | IncorrectMsg rat

text \<open>
  The component state. \<open>timerLive\<close> stands for \<open>timerRef\<close>: it is true exactly when
  the interval whose id is held in \<open>timerRef.current\<close> has been set and not cleared, that is,
  when the timer callback can still fire.
\<close>

record app_state =
  score :: int
  timeLeft :: int
  currentProblem :: "problem option"
  userAnswer :: string
  message :: message
  isGameOver :: bool
  gameStarted :: bool
  problemType :: problem_type
  timerLive :: bool

text \<open>The initial values of the \<open>useState\<close> and \<open>useRef\<close> calls (lines 6 to 16).\<close>

definition init :: app_state where
  "init = \<lparr> score = 0, timeLeft = 60, currentProblem = None, userAnswer = [],
            message = NoMessage, isGameOver = False, gameStarted = False,
            problemType = Random, timerLive = False \<rparr>"

text \<open>
  The phase that the render function shows (lines 180, 233 and 279): the game-over screen
  whenever \<open>isGameOver\<close>, the play screen when \<open>gameStarted && !isGameOver\<close>, the setup
  screen when \<open>!gameStarted && !isGameOver\<close>.
\<close>

datatype phase = IDLE | PLAYING | OVER

definition phase_of :: "app_state \<Rightarrow> phase" where
  "phase_of s = (if isGameOver s then OVER else if gameStarted s then PLAYING else IDLE)"

section \<open>generateProblem (lines 69 to 114)\<close>

text \<open>
  One call of \<open>generateProblem\<close> calls \<open>Math.random()\<close> three times: for \<open>num1\<close>, for
  \<open>num2\<close> and for the operator index. The three results are the parameter \<open>draws\<close>;
  \<open>Math.random\<close> promises \<open>0 \<le> u < 1\<close>. The products \<open>u * 10\<close> and
  \<open>u * operators.length\<close> are taken exactly here; in double arithmetic the first is
  rounded, which can move a product onto the next integer but never to 10 or beyond.
\<close>

type_synonym draws = "rat \<times> rat \<times> rat"

definition unit_draw :: "rat \<Rightarrow> bool" where
  "unit_draw u = (0 \<le> u \<and> u < 1)"

text \<open>Lines 76 to 80: the array \<open>operators\<close> after the four conditional pushes.\<close>

definition operators :: "problem_type \<Rightarrow> operator list" where
  "operators pt =
     (if pt = Addition \<or> pt = Random then [Plus] else []) @
     (if pt = Subtraction \<or> pt = Random then [Minus] else []) @
     (if pt = Multiplication \<or> pt = Random then [Times] else []) @
     (if pt = Division \<or> pt = Random then [Divide] else [])"

text \<open>Array indexing \<open>operators[i]\<close>: \<open>undefined\<close> (here \<open>None\<close>) outside the array.\<close>

definition index_at :: "'a list \<Rightarrow> int \<Rightarrow> 'a option" where
  "index_at xs i = (if 0 \<le> i \<and> i < int (length xs) then Some (xs ! nat i) else None)"

text \<open>
  The object passed to \<open>setCurrentProblem\<close> on line 113. The \<open>default\<close> branch of the
  \<open>switch\<close> is the case of an \<open>undefined\<close> operator.
\<close>

fun newProblem :: "problem_type \<Rightarrow> draws \<Rightarrow> problem" where
  "newProblem pt (u1, u2, u3) =
     (let n1 = \<lfloor>u1 * 10\<rfloor> + 1;
          n2 = \<lfloor>u2 * 10\<rfloor> + 1;
          ops = operators pt
      in case index_at ops \<lfloor>u3 * of_nat (length ops)\<rfloor> of
           Some Plus \<Rightarrow>
             \<lparr> num1 = n1, num2 = n2, operator = Plus, answer = of_int (n1 + n2) \<rparr>
         | Some Minus \<Rightarrow>
             (let a = (if n1 < n2 then n2 else n1);
                  b = (if n1 < n2 then n1 else n2)
              in \<lparr> num1 = a, num2 = b, operator = Minus, answer = of_int (a - b) \<rparr>)
         | Some Times \<Rightarrow>
             \<lparr> num1 = n1, num2 = n2, operator = Times, answer = of_int (n1 * n2) \<rparr>
         | Some Divide \<Rightarrow>
             (let product = n1 * n2
              in \<lparr> num1 = product, num2 = n2, operator = Divide,
                   answer = of_int product / of_int n2 \<rparr>)
         | None \<Rightarrow>
             \<lparr> num1 = n1, num2 = n2, operator = Plus, answer = of_int (n1 + n2) \<rparr>)"

definition generateProblem :: "draws \<Rightarrow> app_state \<Rightarrow> app_state" where
  "generateProblem r s = s\<lparr> currentProblem := Some (newProblem (problemType s) r) \<rparr>"

section \<open>parseInt(userAnswer, 10)\<close>

text \<open>
  \<open>parseInt\<close> with radix 10 skips leading white space, reads an optional sign, and
  converts the longest prefix of decimal digits; with no digit it returns \<open>NaN\<close>, here
  \<open>None\<close>. Strings are lists of 8-bit code units, so the white space characters are
  tab, line feed, vertical tab, form feed, carriage return, space and no-break space.
  The result is kept exact. \<open>parseInt\<close> rounds a value beyond \<open>2 ^ 53\<close> to a double;
  the result is only ever compared with \<open>===\<close> against an answer, and rounding cannot
  make such a value equal to an answer below \<open>2 ^ 53\<close>.
\<close>

definition isWhiteSpace :: "char \<Rightarrow> bool" where
  "isWhiteSpace c = (of_char c \<in> {9, 10, 11, 12, 13, 32, 160 :: nat})"

definition isDigit :: "char \<Rightarrow> bool" where
  "isDigit c = (48 \<le> (of_char c :: nat) \<and> (of_char c :: nat) \<le> 57)"

definition digitsValue :: "string \<Rightarrow> nat" where
  "digitsValue z = foldl (\<lambda>acc c. acc * 10 + (of_char c - 48)) 0 z"

definition parseInt :: "string \<Rightarrow> int option" where
  "parseInt str =
     (let s1 = dropWhile isWhiteSpace str;
          sign = (if s1 \<noteq> [] \<and> hd s1 = CHR ''-'' then - 1 else 1 :: int);
          s2 = (if s1 \<noteq> [] \<and> (hd s1 = CHR ''+'' \<or> hd s1 = CHR ''-'') then tl s1 else s1);
          z = takeWhile isDigit s2
      in if z = [] then None else Some (sign * int (digitsValue z)))"

text \<open>
  \<open>parsedAnswer === currentProblem.answer\<close>: \<open>NaN\<close> is equal to nothing, a number is
  equal to the answer when the values agree.
\<close>

fun strictEq :: "int option \<Rightarrow> rat \<Rightarrow> bool" where
  "strictEq None a = False"
| "strictEq (Some v) a = (of_int v = a)"

section \<open>Event handlers and effects\<close>

text \<open>\<open>handleAnswerSubmit\<close> (lines 117 to 139); \<open>r\<close> feeds its \<open>generateProblem()\<close>.\<close>

definition handleAnswerSubmit :: "draws \<Rightarrow> app_state \<Rightarrow> app_state" where
  "handleAnswerSubmit r s =
     (case currentProblem s of
        None \<Rightarrow> s
      | Some p \<Rightarrow>
          if \<not> gameStarted s \<or> isGameOver s then s
          else
            (let parsedAnswer = parseInt (userAnswer s);
                 s1 = (if strictEq parsedAnswer (answer p)
                       then s\<lparr> score := score s + 1, timeLeft := timeLeft s + 30,
                               message := CorrectMsg \<rparr>
                       else s\<lparr> timeLeft := max 0 (timeLeft s - 10),
                               message := IncorrectMsg (answer p) \<rparr>)
             in generateProblem r (s1\<lparr> userAnswer := [] \<rparr>)))"

text \<open>\<open>startGame\<close> (lines 142 to 154).\<close>

definition startGame :: "draws \<Rightarrow> app_state \<Rightarrow> app_state" where
  "startGame r s =
     generateProblem r
       (s\<lparr> score := 0, timeLeft := 60, isGameOver := False, gameStarted := True,
           message := NoMessage, userAnswer := [] \<rparr>)"

text \<open>\<open>resetGame\<close> (lines 157 to 170), which also clears the interval itself.\<close>

definition resetGame :: "app_state \<Rightarrow> app_state" where
  "resetGame s =
     s\<lparr> gameStarted := False, isGameOver := False, score := 0, timeLeft := 60,
        message := NoMessage, userAnswer := [], currentProblem := None,
        timerLive := False \<rparr>"

text \<open>The two input handlers written inline in the markup (lines 188 to 222, 254).\<close>

definition setProblemType :: "problem_type \<Rightarrow> app_state \<Rightarrow> app_state" where
  "setProblemType pt s = s\<lparr> problemType := pt \<rparr>"

definition setUserAnswer :: "string \<Rightarrow> app_state \<Rightarrow> app_state" where
  "setUserAnswer raw s = s\<lparr> userAnswer := raw \<rparr>"

text \<open>
  The interval callback (lines 29 to 39): the updater passed to \<open>setTimeLeft\<close>, which in
  its first branch also clears the interval and sets the two flags.
\<close>

definition timerCallback :: "app_state \<Rightarrow> app_state" where
  "timerCallback s =
     (if timeLeft s \<le> 1
      then s\<lparr> timerLive := False, isGameOver := True, gameStarted := False, timeLeft := 0 \<rparr>
      else s\<lparr> timeLeft := timeLeft s - 1 \<rparr>)"

text \<open>
  The timer effect (lines 21 to 55) runs after a render in which \<open>gameStarted\<close> or
  \<open>isGameOver\<close> differs from the previous render (\<open>old\<close>). Its clean-up clears the old
  interval; its body installs a new one when \<open>gameStarted && !isGameOver\<close> and leaves
  none otherwise.
\<close>

definition timerEffect :: "app_state \<Rightarrow> app_state \<Rightarrow> app_state" where
  "timerEffect old s =
     (if gameStarted old = gameStarted s \<and> isGameOver old = isGameOver s then s
      else s\<lparr> timerLive := (gameStarted s \<and> \<not> isGameOver s) \<rparr>)"

text \<open>
  The problem effect (lines 58 to 66) runs when \<open>gameStarted\<close>, \<open>isGameOver\<close> or
  \<open>problemType\<close> has changed, and then calls \<open>generateProblem()\<close> if the game is running.
\<close>

definition problemEffect :: "app_state \<Rightarrow> draws \<Rightarrow> app_state \<Rightarrow> app_state" where
  "problemEffect old r s =
     (if gameStarted old = gameStarted s \<and> isGameOver old = isGameOver s
         \<and> problemType old = problemType s then s
      else if gameStarted s \<and> \<not> isGameOver s then generateProblem r s
      else s)"

definition effects :: "app_state \<Rightarrow> draws \<Rightarrow> app_state \<Rightarrow> app_state" where
  "effects old r s = problemEffect old r (timerEffect old s)"

section \<open>Transitions of the session\<close>

text \<open>
  A transition is a handler followed by the effects of the render it causes. \<open>start\<close>
  and \<open>selectType\<close> take a second triple of draws for the problem effect. \<open>tick\<close> is
  the firing of the interval, which happens only while the interval is live.
  \<open>submitAnswer\<close> is the \<open>onChange\<close> of the input followed by the form's \<open>onSubmit\<close>.
\<close>

definition start :: "draws \<Rightarrow> draws \<Rightarrow> app_state \<Rightarrow> app_state" where
  "start r r' s = effects s r' (startGame r s)"

definition selectType :: "problem_type \<Rightarrow> draws \<Rightarrow> app_state \<Rightarrow> app_state" where
  "selectType pt r' s = effects s r' (setProblemType pt s)"

definition tick :: "draws \<Rightarrow> app_state \<Rightarrow> app_state" where
  "tick r' s = (if timerLive s then effects s r' (timerCallback s) else s)"

definition submit :: "draws \<Rightarrow> draws \<Rightarrow> app_state \<Rightarrow> app_state" where
  "submit r r' s = effects s r' (handleAnswerSubmit r s)"

definition submitAnswer :: "string \<Rightarrow> draws \<Rightarrow> draws \<Rightarrow> app_state \<Rightarrow> app_state" where
  "submitAnswer raw r r' s = submit r r' (setUserAnswer raw s)"

definition reset :: "draws \<Rightarrow> app_state \<Rightarrow> app_state" where
  "reset r' s = effects s r' (resetGame s)"

datatype event =
    Start draws draws
  | SelectType problem_type draws
  | TypeAnswer string
  | Submit draws draws
  | Tick draws
  | Reset draws

fun step :: "event \<Rightarrow> app_state \<Rightarrow> app_state" where
  "step (Start r r') s = start r r' s"
| "step (SelectType pt r') s = selectType pt r' s"
| "step (TypeAnswer raw) s = setUserAnswer raw s"
| "step (Submit r r') s = submit r r' s"
| "step (Tick r') s = tick r' s"
| "step (Reset r') s = reset r' s"

fun run :: "event list \<Rightarrow> app_state \<Rightarrow> app_state" where
  "run [] s = s"
| "run (e # es) s = run es (step e s)"

inductive reachable :: "app_state \<Rightarrow> bool" where
  reachable_init: "reachable init"
| reachable_step: "reachable s \<Longrightarrow> reachable (step e s)"

section \<open>Concrete sessions\<close>

text \<open>
  With all three draws equal to 0 the generator returns \<open>1 + 1 = ?\<close> in mode
  \<open>Random\<close>, so the input \<open>0\<close> is a wrong answer to it.
\<close>

definition d0 :: draws where
  "d0 = (0, 0, 0)"

definition wrong :: "event list" where
  "wrong = [TypeAnswer ''0'', Submit d0 d0]"

text \<open>A started session after five wrong answers: ten seconds are left.\<close>

definition session10 :: app_state where
  "session10 = run (Start d0 d0 # wrong @ wrong @ wrong @ wrong @ wrong) init"

text \<open>Five ticks later, five seconds are left; nine ticks later, one second.\<close>

definition session5 :: app_state where
  "session5 = run [Tick d0, Tick d0, Tick d0, Tick d0, Tick d0] session10"

definition session1 :: app_state where
  "session1 = run [Tick d0, Tick d0, Tick d0, Tick d0] session5"

text \<open>A sixth wrong answer after the five, and then one tick.\<close>

definition session0 :: app_state where
  "session0 = run wrong session10"

definition sessionOver :: app_state where
  "sessionOver = run [Tick d0] session0"

text \<open>A session started with the problem \<open>3 + 4 = ?\<close>.\<close>

definition session347 :: app_state where
  "session347 = run [Start d0 (1 / 5, 3 / 10, 0)] init"

section \<open>The invariant of reachable states\<close>

text \<open>The facts that hold in every reachable state, proved together.\<close>

definition session_inv :: "app_state \<Rightarrow> bool" where
  "session_inv s =
     (timerLive s = (gameStarted s \<and> \<not> isGameOver s)
      \<and> \<not> (gameStarted s \<and> isGameOver s)
      \<and> (currentProblem s \<noteq> None) = (gameStarted s \<or> isGameOver s)
      \<and> 0 \<le> timeLeft s
      \<and> (isGameOver s \<longrightarrow> timeLeft s = 0)
      \<and> (\<not> gameStarted s \<and> \<not> isGameOver s \<longrightarrow> timeLeft s = 60 \<and> score s = 0)
      \<and> 0 \<le> score s)"

section \<open>Auxiliary facts\<close>

lemmas effect_defs = effects_def timerEffect_def problemEffect_def

lemmas parse_defs = parseInt_def isWhiteSpace_def isDigit_def digitsValue_def

text \<open>What \<open>handleAnswerSubmit\<close> does in each of its three cases.\<close>

lemma handleAnswerSubmit_ignored:
  "currentProblem s = None \<or> \<not> gameStarted s \<or> isGameOver s \<Longrightarrow> handleAnswerSubmit r s = s"
  by (auto simp: handleAnswerSubmit_def split: option.splits)

lemma handleAnswerSubmit_correct:
  assumes "gameStarted s" "\<not> isGameOver s" "currentProblem s = Some p"
    and "strictEq (parseInt (userAnswer s)) (answer p)"
  shows "handleAnswerSubmit r s =
     s\<lparr> score := score s + 1, timeLeft := timeLeft s + 30, message := CorrectMsg,
        userAnswer := [], currentProblem := Some (newProblem (problemType s) r) \<rparr>"
  using assms by (simp add: handleAnswerSubmit_def generateProblem_def)

lemma handleAnswerSubmit_incorrect:
  assumes "gameStarted s" "\<not> isGameOver s" "currentProblem s = Some p"
    and "\<not> strictEq (parseInt (userAnswer s)) (answer p)"
  shows "handleAnswerSubmit r s =
     s\<lparr> timeLeft := max 0 (timeLeft s - 10), message := IncorrectMsg (answer p),
        userAnswer := [], currentProblem := Some (newProblem (problemType s) r) \<rparr>"
  using assms by (simp add: handleAnswerSubmit_def generateProblem_def)

text \<open>
  \<open>handleAnswerSubmit\<close> changes none of the values the two effects depend on, so no
  effect runs after it.
\<close>

lemma handleAnswerSubmit_flags:
  "gameStarted (handleAnswerSubmit r s) = gameStarted s"
  "isGameOver (handleAnswerSubmit r s) = isGameOver s"
  "problemType (handleAnswerSubmit r s) = problemType s"
  by (simp_all add: handleAnswerSubmit_def generateProblem_def Let_def split: option.splits)

lemma submit_eq: "submit r r' s = handleAnswerSubmit r s"
  by (simp add: submit_def effect_defs handleAnswerSubmit_flags)

lemma submitAnswer_eq: "submitAnswer raw r r' s = handleAnswerSubmit r (s\<lparr> userAnswer := raw \<rparr>)"
  by (simp add: submitAnswer_def submit_eq setUserAnswer_def)

text \<open>The interval callback: its two branches followed by the effects.\<close>

lemma tick_not_live: "\<not> timerLive s \<Longrightarrow> tick r' s = s"
  by (simp add: tick_def)

lemma tick_expire:
  "timerLive s \<Longrightarrow> timeLeft s \<le> 1 \<Longrightarrow> gameStarted s \<Longrightarrow> \<not> isGameOver s \<Longrightarrow>
   tick r' s = s\<lparr> timerLive := False, isGameOver := True, gameStarted := False, timeLeft := 0 \<rparr>"
  by (simp add: tick_def timerCallback_def effect_defs)

lemma tick_decrement:
  "timerLive s \<Longrightarrow> \<not> timeLeft s \<le> 1 \<Longrightarrow> tick r' s = s\<lparr> timeLeft := timeLeft s - 1 \<rparr>"
  by (simp add: tick_def timerCallback_def effect_defs)

lemma session_inv_init: "session_inv init"
  by (simp add: session_inv_def init_def)


lemma session_inv_start: "session_inv s \<Longrightarrow> session_inv (start r r' s)"
  by (cases "gameStarted s"; cases "isGameOver s")
     (simp_all add: session_inv_def start_def startGame_def generateProblem_def effect_defs)

lemma session_inv_selectType: "session_inv s \<Longrightarrow> session_inv (selectType pt r' s)"
  by (cases "gameStarted s"; cases "isGameOver s")
     (simp_all add: session_inv_def selectType_def setProblemType_def generateProblem_def
        effect_defs)

lemma session_inv_setUserAnswer: "session_inv s \<Longrightarrow> session_inv (setUserAnswer raw s)"
  by (simp add: session_inv_def setUserAnswer_def)

lemma session_inv_submit:
  assumes "session_inv s"
  shows "session_inv (submit r r' s)"
proof (cases "currentProblem s = None \<or> \<not> gameStarted s \<or> isGameOver s")
  case True
  then show ?thesis
    using assms by (simp add: submit_eq handleAnswerSubmit_ignored)
next
  case False
  then obtain p where p: "currentProblem s = Some p"
    and g: "gameStarted s" and o: "\<not> isGameOver s"
    by auto
  show ?thesis
  proof (cases "strictEq (parseInt (userAnswer s)) (answer p)")
    case True
    show ?thesis
      using assms g o
      by (simp add: submit_eq handleAnswerSubmit_correct [OF g o p True] session_inv_def)
  next
    case False
    show ?thesis
      using assms g o
      by (simp add: submit_eq handleAnswerSubmit_incorrect [OF g o p False] session_inv_def)
  qed
qed

lemma session_inv_tick: "session_inv s \<Longrightarrow> session_inv (tick r' s)"
  by (cases "gameStarted s"; cases "isGameOver s"; cases "timeLeft s \<le> 1")
     (simp_all add: session_inv_def tick_def timerCallback_def generateProblem_def effect_defs)

lemma session_inv_reset: "session_inv s \<Longrightarrow> session_inv (reset r' s)"
  by (cases "gameStarted s"; cases "isGameOver s")
     (simp_all add: session_inv_def reset_def resetGame_def generateProblem_def effect_defs)

lemma session_inv_step: "session_inv s \<Longrightarrow> session_inv (step e s)"
  by (cases e)
     (simp_all add: session_inv_start session_inv_selectType session_inv_setUserAnswer
        session_inv_submit session_inv_tick session_inv_reset)

lemma reachable_inv: "reachable s \<Longrightarrow> session_inv s"
  by (induction rule: reachable.induct) (simp_all add: session_inv_init session_inv_step)

lemma reachable_run: "reachable s \<Longrightarrow> reachable (run es s)"
  by (induction es arbitrary: s) (simp_all add: reachable_step)

lemma playing_iff: "phase_of s = PLAYING \<longleftrightarrow> gameStarted s \<and> \<not> isGameOver s"
  by (simp add: phase_of_def)

lemma over_iff: "phase_of s = OVER \<longleftrightarrow> isGameOver s"
  by (simp add: phase_of_def)

lemma idle_iff: "phase_of s = IDLE \<longleftrightarrow> \<not> gameStarted s \<and> \<not> isGameOver s"
  by (simp add: phase_of_def)

text \<open>The concrete sessions, evaluated.\<close>

lemma session10_eq:
  "session10 = \<lparr> score = 0, timeLeft = 10,
      currentProblem = Some \<lparr> num1 = 1, num2 = 1, operator = Plus, answer = 2 \<rparr>,
      userAnswer = [], message = IncorrectMsg 2, isGameOver = False, gameStarted = True,
      problemType = Random, timerLive = True \<rparr>"
  unfolding session10_def wrong_def d0_def by code_simp

lemma session5_eq: "session5 = session10\<lparr> timeLeft := 5 \<rparr>"
  unfolding session5_def session10_eq d0_def by code_simp

lemma session1_eq: "session1 = session10\<lparr> timeLeft := 1 \<rparr>"
  unfolding session1_def session5_eq session10_eq d0_def by code_simp

lemma session0_eq: "session0 = session10\<lparr> timeLeft := 0 \<rparr>"
  unfolding session0_def session10_eq wrong_def d0_def by code_simp

lemma sessionOver_eq:
  "sessionOver = session10\<lparr> timeLeft := 0, isGameOver := True, gameStarted := False,
     timerLive := False \<rparr>"
  unfolding sessionOver_def session0_eq session10_eq d0_def by code_simp

lemma session347_eq:
  "session347 = \<lparr> score = 0, timeLeft = 60,
      currentProblem = Some \<lparr> num1 = 3, num2 = 4, operator = Plus, answer = 7 \<rparr>,
      userAnswer = [], message = NoMessage, isGameOver = False, gameStarted = True,
      problemType = Random, timerLive = True \<rparr>"
  unfolding session347_def d0_def by code_simp

lemma reachable_session10: "reachable session10"
  unfolding session10_def by (rule reachable_run [OF reachable_init])

lemma reachable_session5: "reachable session5"
  unfolding session5_def by (rule reachable_run [OF reachable_session10])

lemma reachable_session1: "reachable session1"
  unfolding session1_def by (rule reachable_run [OF reachable_session5])

lemma reachable_session0: "reachable session0"
  unfolding session0_def by (rule reachable_run [OF reachable_session10])

lemma reachable_sessionOver: "reachable sessionOver"
  unfolding sessionOver_def by (rule reachable_run [OF reachable_session0])


section \<open>The problem generator\<close>

lemma draw_floor_bounds: "unit_draw u \<Longrightarrow> 0 \<le> \<lfloor>u * 10\<rfloor> \<and> \<lfloor>u * 10\<rfloor> < 10"
  by (simp add: unit_draw_def floor_less_iff)

lemma operators_nonempty: "operators pt \<noteq> []"
  by (cases pt) (simp_all add: operators_def)

lemma index_at_operators:
  assumes "unit_draw u"
  shows "\<exists>op \<in> set (operators pt).
           index_at (operators pt) \<lfloor>u * of_nat (length (operators pt))\<rfloor> = Some op"
proof -
  let ?n = "length (operators pt)"
  have pos: "0 < ?n"
    using operators_nonempty [of pt] by simp
  have lo: "0 \<le> \<lfloor>u * of_nat ?n\<rfloor>"
    using assms by (simp add: unit_draw_def)
  have "u * of_nat ?n < of_nat ?n"
    using assms pos by (simp add: unit_draw_def)
  then have hi: "\<lfloor>u * of_nat ?n\<rfloor> < int ?n"
    by (simp add: floor_less_iff)
  from lo hi have "nat \<lfloor>u * of_nat ?n\<rfloor> < ?n"
    by linarith
  then have "operators pt ! nat \<lfloor>u * of_nat ?n\<rfloor> \<in> set (operators pt)"
    by (rule nth_mem)
  with lo hi show ?thesis
    by (simp add: index_at_def)
qed

text \<open>
  Claim C6. For every mode and all draws of \<open>Math.random\<close>, the generated problem has an
  integer, non-negative answer; for subtraction the first operand is at least the second;
  for division the second operand is positive and divides the first, which is the product
  of the two raw operands. The operator is one of those allowed by the mode.
\<close>

theorem generated_problem_sound:
  assumes "unit_draw u1" and "unit_draw u2" and "unit_draw u3"
  shows "answer (newProblem pt (u1, u2, u3)) \<in> \<int>
       \<and> 0 \<le> answer (newProblem pt (u1, u2, u3))
       \<and> operator (newProblem pt (u1, u2, u3)) \<in> set (operators pt)
       \<and> (operator (newProblem pt (u1, u2, u3)) = Minus \<longrightarrow>
            num2 (newProblem pt (u1, u2, u3)) \<le> num1 (newProblem pt (u1, u2, u3)))
       \<and> (operator (newProblem pt (u1, u2, u3)) = Divide \<longrightarrow>
            0 < num2 (newProblem pt (u1, u2, u3))
          \<and> num1 (newProblem pt (u1, u2, u3)) mod num2 (newProblem pt (u1, u2, u3)) = 0
          \<and> num1 (newProblem pt (u1, u2, u3)) = (\<lfloor>u1 * 10\<rfloor> + 1) * (\<lfloor>u2 * 10\<rfloor> + 1))"
proof -
  define n1 where "n1 = \<lfloor>u1 * 10\<rfloor> + 1"
  define n2 where "n2 = \<lfloor>u2 * 10\<rfloor> + 1"
  have n1: "0 < n1" and n2: "0 < n2"
    using draw_floor_bounds [OF assms(1)] draw_floor_bounds [OF assms(2)]
    by (simp_all add: n1_def n2_def)
  obtain op where mem: "op \<in> set (operators pt)"
    and idx: "index_at (operators pt) \<lfloor>u3 * of_nat (length (operators pt))\<rfloor> = Some op"
    using index_at_operators [OF assms(3), of pt] by blast
  have quot: "rat_of_int (n1 * n2) / rat_of_int n2 = rat_of_int n1"
    using n2 by simp
  show ?thesis
  proof (cases op)
    case Plus
    with idx mem n1 n2 show ?thesis
      by (simp add: n1_def [symmetric] n2_def [symmetric] del: of_int_add)
  next
    case Minus
    with idx mem n1 n2 show ?thesis
      by (simp add: n1_def [symmetric] n2_def [symmetric] Let_def del: of_int_diff)
  next
    case Times
    with idx mem n1 n2 show ?thesis
      by (simp add: n1_def [symmetric] n2_def [symmetric] del: of_int_mult)
  next
    case Divide
    with idx mem n1 n2 quot show ?thesis
      by (simp add: n1_def [symmetric] n2_def [symmetric] del: of_int_mult)
  qed
qed

theorem generated_problem_sound_witness:
  "unit_draw (3 / 10) \<and> unit_draw (7 / 10) \<and> unit_draw (3 / 4)
   \<and> newProblem Random (3 / 10, 7 / 10, 3 / 4)
       = \<lparr> num1 = 32, num2 = 8, operator = Divide, answer = 4 \<rparr>
   \<and> answer (newProblem Random (3 / 10, 7 / 10, 3 / 4)) \<in> \<int>
   \<and> 32 mod 8 = (0 :: int)"
proof -
  have h: "unit_draw (3 / 10)" "unit_draw (7 / 10)" "unit_draw (3 / 4)"
    by (simp_all add: unit_draw_def)
  have e: "newProblem Random (3 / 10, 7 / 10, 3 / 4)
       = \<lparr> num1 = 32, num2 = 8, operator = Divide, answer = 4 \<rparr>"
    by (simp add: operators_def index_at_def)
  from generated_problem_sound [OF h, of Random] h e show ?thesis
    by simp
qed


section \<open>Submitting an answer\<close>

text \<open>
  Claim C7. In a PLAYING session with a current problem, submitting an input whose
  parsed integer equals the answer of the problem adds 1 to the score and 30 to the time
  left, sets the feedback to the "correct" message, clears the input and installs the
  problem generated from the next draws.
\<close>

theorem correct_answer:
  assumes "phase_of s = PLAYING" and "currentProblem s = Some p"
    and "parseInt raw = Some v" and "of_int v = answer p"
  shows "submitAnswer raw r r' s =
     s\<lparr> score := score s + 1, timeLeft := timeLeft s + 30, message := CorrectMsg,
        userAnswer := [], currentProblem := Some (newProblem (problemType s) r) \<rparr>"
proof -
  let ?t = "s\<lparr> userAnswer := raw \<rparr>"
  have g: "gameStarted ?t" and o: "\<not> isGameOver ?t"
    using assms(1) by (simp_all add: playing_iff)
  have p: "currentProblem ?t = Some p"
    using assms(2) by simp
  have e: "strictEq (parseInt (userAnswer ?t)) (answer p)"
    using assms(3,4) by simp
  show ?thesis
    by (simp add: submitAnswer_eq handleAnswerSubmit_correct [OF g o p e])
qed

text \<open>
  The instance of the specification: the answer \<open>7\<close> to \<open>3 + 4 = ?\<close> with 60
  seconds left gives score 1 and 90 seconds.
\<close>

theorem correct_answer_witness:
  "phase_of session347 = PLAYING
   \<and> currentProblem session347 = Some \<lparr> num1 = 3, num2 = 4, operator = Plus, answer = 7 \<rparr>
   \<and> timeLeft session347 = 60 \<and> score session347 = 0
   \<and> parseInt ''7'' = Some 7
   \<and> score (submitAnswer ''7'' d0 d0 session347) = 1
   \<and> timeLeft (submitAnswer ''7'' d0 d0 session347) = 90
   \<and> message (submitAnswer ''7'' d0 d0 session347) = CorrectMsg
   \<and> currentProblem (submitAnswer ''7'' d0 d0 session347)
       = Some \<lparr> num1 = 1, num2 = 1, operator = Plus, answer = 2 \<rparr>"
proof -
  have h1: "phase_of session347 = PLAYING"
    by (simp add: session347_eq phase_of_def)
  have h2: "currentProblem session347
      = Some \<lparr> num1 = 3, num2 = 4, operator = Plus, answer = 7 \<rparr>"
    by (simp add: session347_eq)
  have h3: "parseInt ''7'' = Some 7"
    by (simp add: parse_defs)
  have h4: "rat_of_int 7 = answer \<lparr> num1 = 3, num2 = 4, operator = Plus, answer = 7 \<rparr>"
    by simp
  have n: "newProblem Random d0 = \<lparr> num1 = 1, num2 = 1, operator = Plus, answer = 2 \<rparr>"
    by (simp add: d0_def operators_def index_at_def)
  from correct_answer [OF h1 h2 h3 h4, of d0 d0] h1 h2 h3 n show ?thesis
    by (simp add: session347_eq)
qed

text \<open>
  Claim C5, as the code has it. An input that does not parse as an integer is not ignored:
  \<open>parseInt\<close> yields \<open>NaN\<close>, the comparison fails, and the input is handled as a wrong
  answer. The score is unchanged, the time left becomes \<open>max 0 (timeLeft - 10)\<close>, the
  feedback names the right answer and a new problem is installed.
\<close>

theorem unparsable_is_incorrect:
  assumes "phase_of s = PLAYING" and "currentProblem s = Some p" and "parseInt raw = None"
  shows "submitAnswer raw r r' s =
     s\<lparr> timeLeft := max 0 (timeLeft s - 10), message := IncorrectMsg (answer p),
        userAnswer := [], currentProblem := Some (newProblem (problemType s) r) \<rparr>
     \<and> score (submitAnswer raw r r' s) = score s
     \<and> timeLeft (submitAnswer raw r r' s) = max 0 (timeLeft s - 10)"
proof -
  let ?t = "s\<lparr> userAnswer := raw \<rparr>"
  have g: "gameStarted ?t" and o: "\<not> isGameOver ?t"
    using assms(1) by (simp_all add: playing_iff)
  have p: "currentProblem ?t = Some p"
    using assms(2) by simp
  have e: "\<not> strictEq (parseInt (userAnswer ?t)) (answer p)"
    using assms(3) by simp
  show ?thesis
    by (simp add: submitAnswer_eq handleAnswerSubmit_incorrect [OF g o p e])
qed

theorem unparsable_is_incorrect_witness:
  "phase_of session347 = PLAYING \<and> parseInt ''1e'' = Some 1 \<and> parseInt ''e1'' = None
   \<and> score (submitAnswer ''e1'' d0 d0 session347) = score session347
   \<and> message (submitAnswer ''e1'' d0 d0 session347) = IncorrectMsg 7"
proof -
  have h1: "phase_of session347 = PLAYING"
    by (simp add: session347_eq phase_of_def)
  have h2: "currentProblem session347
      = Some \<lparr> num1 = 3, num2 = 4, operator = Plus, answer = 7 \<rparr>"
    by (simp add: session347_eq)
  have h3: "parseInt ''e1'' = None"
    by (simp add: parse_defs)
  have h4: "parseInt ''1e'' = Some 1"
    by (simp add: parse_defs)
  from unparsable_is_incorrect [OF h1 h2 h3, of d0 d0] h1 h3 h4 show ?thesis
    by simp
qed

text \<open>
  Claim C5 as written fails: with 60 seconds left, submitting the unparsable input
  \<open>abc\<close> leaves 50 seconds.
\<close>

theorem unparsable_changes_time:
  "parseInt ''abc'' = None \<and> phase_of session347 = PLAYING
   \<and> timeLeft session347 = 60
   \<and> timeLeft (submitAnswer ''abc'' d0 d0 session347) = 50"
  unfolding session347_eq d0_def by code_simp

text \<open>
  Claim C1, as the code has it. In a reachable PLAYING session with a current problem,
  submitting an answer that is not equal to the answer of the problem sets the time left to
  \<open>max 0 (timeLeft - 10)\<close> and the feedback to the "incorrect" message with the right
  answer. The session stays PLAYING in that call, also when the time left has become 0;
  it is the next tick of the interval that ends it.
\<close>

theorem incorrect_answer:
  assumes "reachable s" and "phase_of s = PLAYING" and "currentProblem s = Some p"
    and "\<not> strictEq (parseInt raw) (answer p)"
  shows "submitAnswer raw r r' s =
     s\<lparr> timeLeft := max 0 (timeLeft s - 10), message := IncorrectMsg (answer p),
        userAnswer := [], currentProblem := Some (newProblem (problemType s) r) \<rparr>
     \<and> phase_of (submitAnswer raw r r' s) = PLAYING
     \<and> (timeLeft s \<le> 10 \<longrightarrow>
          timeLeft (submitAnswer raw r r' s) = 0
        \<and> phase_of (tick r'' (submitAnswer raw r r' s)) = OVER)"
proof -
  let ?t = "s\<lparr> userAnswer := raw \<rparr>"
  let ?u = "submitAnswer raw r r' s"
  have g: "gameStarted ?t" and o: "\<not> isGameOver ?t"
    using assms(2) by (simp_all add: playing_iff)
  have p: "currentProblem ?t = Some p"
    using assms(3) by simp
  have e: "\<not> strictEq (parseInt (userAnswer ?t)) (answer p)"
    using assms(4) by simp
  have eq: "?u =
     s\<lparr> timeLeft := max 0 (timeLeft s - 10), message := IncorrectMsg (answer p),
        userAnswer := [], currentProblem := Some (newProblem (problemType s) r) \<rparr>"
    by (simp add: submitAnswer_eq handleAnswerSubmit_incorrect [OF g o p e])
  have live: "timerLive s"
    using reachable_inv [OF assms(1)] assms(2) by (simp add: session_inv_def playing_iff)
  have playing: "phase_of ?u = PLAYING"
    using g o by (simp add: eq phase_of_def)
  have ends: "phase_of (tick r'' ?u) = OVER" if "timeLeft s \<le> 10"
  proof -
    have "tick r'' ?u =
        ?u\<lparr> timerLive := False, isGameOver := True, gameStarted := False, timeLeft := 0 \<rparr>"
      using that live g o by (intro tick_expire) (simp_all add: eq)
    then show ?thesis
      by (simp add: phase_of_def)
  qed
  have zero: "timeLeft ?u = 0" if "timeLeft s \<le> 10"
    using that by (simp add: eq)
  from eq playing ends zero show ?thesis
    by blast
qed

theorem incorrect_answer_witness:
  "reachable session5 \<and> phase_of session5 = PLAYING \<and> timeLeft session5 \<le> 10
   \<and> \<not> strictEq (parseInt ''0'') 2
   \<and> message (submitAnswer ''0'' d0 d0 session5) = IncorrectMsg 2
   \<and> phase_of (tick d0 (submitAnswer ''0'' d0 d0 session5)) = OVER"
proof -
  have h2: "phase_of session5 = PLAYING"
    by (simp add: session5_eq session10_eq phase_of_def)
  have h3: "currentProblem session5
      = Some \<lparr> num1 = 1, num2 = 1, operator = Plus, answer = 2 \<rparr>"
    by (simp add: session5_eq session10_eq)
  have h4: "\<not> strictEq (parseInt ''0'') (answer \<lparr> num1 = 1, num2 = 1, operator = Plus, answer = 2 \<rparr>)"
    by (simp add: parse_defs)
  have t: "timeLeft session5 \<le> 10"
    by (simp add: session5_eq session10_eq)
  note c1 = incorrect_answer [OF reachable_session5 h2 h3 h4, of d0 d0 d0]
  from c1 t have over: "phase_of (tick d0 (submitAnswer ''0'' d0 d0 session5)) = OVER"
    by blast
  have msg: "message (submitAnswer ''0'' d0 d0 session5) = IncorrectMsg 2"
    by (simp add: c1 [THEN conjunct1])
  from reachable_session5 h2 h4 t over msg show ?thesis
    by simp
qed

text \<open>
  Claim C1 as written fails: a wrong answer with 5 seconds left gives 0 seconds, and the
  session is still PLAYING when the call returns.
\<close>

theorem incorrect_answer_keeps_playing:
  "reachable session5 \<and> phase_of session5 = PLAYING \<and> timeLeft session5 = 5
   \<and> currentProblem session5 = Some \<lparr> num1 = 1, num2 = 1, operator = Plus, answer = 2 \<rparr>
   \<and> parseInt ''0'' = Some 0
   \<and> timeLeft (submitAnswer ''0'' d0 d0 session5) = 0
   \<and> phase_of (submitAnswer ''0'' d0 d0 session5) = PLAYING"
proof -
  have "phase_of session5 = PLAYING \<and> timeLeft session5 = 5
   \<and> currentProblem session5 = Some \<lparr> num1 = 1, num2 = 1, operator = Plus, answer = 2 \<rparr>
   \<and> parseInt ''0'' = Some 0
   \<and> timeLeft (submitAnswer ''0'' d0 d0 session5) = 0
   \<and> phase_of (submitAnswer ''0'' d0 d0 session5) = PLAYING"
    unfolding session5_eq session10_eq d0_def by code_simp
  with reachable_session5 show ?thesis
    by simp
qed

section \<open>The clock\<close>

text \<open>
  Claim C4, as the code has it. One tick of a reachable PLAYING session with one second
  left ends the session: the phase is OVER and the time left is 0. The interval callback
  does not touch \<open>currentProblem\<close>, so the last problem is still present afterwards.
\<close>

theorem tick_at_one:
  assumes "reachable s" and "phase_of s = PLAYING" and "timeLeft s = 1"
  shows "tick r' s =
           s\<lparr> timerLive := False, isGameOver := True, gameStarted := False, timeLeft := 0 \<rparr>
       \<and> phase_of (tick r' s) = OVER
       \<and> timeLeft (tick r' s) = 0
       \<and> currentProblem (tick r' s) = currentProblem s
       \<and> currentProblem (tick r' s) \<noteq> None"
proof -
  have g: "gameStarted s" and o: "\<not> isGameOver s"
    using assms(2) by (simp_all add: playing_iff)
  have live: "timerLive s" and present: "currentProblem s \<noteq> None"
    using reachable_inv [OF assms(1)] g o by (simp_all add: session_inv_def)
  have eq: "tick r' s =
      s\<lparr> timerLive := False, isGameOver := True, gameStarted := False, timeLeft := 0 \<rparr>"
    using live assms(3) g o by (intro tick_expire) simp_all
  show ?thesis
    using present by (simp add: eq phase_of_def)
qed

theorem tick_at_one_witness:
  "reachable session1 \<and> phase_of session1 = PLAYING \<and> timeLeft session1 = 1
   \<and> phase_of (tick d0 session1) = OVER \<and> timeLeft (tick d0 session1) = 0
   \<and> currentProblem (tick d0 session1) = currentProblem session1"
proof -
  have h2: "phase_of session1 = PLAYING"
    by (simp add: session1_eq session10_eq phase_of_def)
  have h3: "timeLeft session1 = 1"
    by (simp add: session1_eq)
  from tick_at_one [OF reachable_session1 h2 h3, of d0] reachable_session1 h2 h3
  show ?thesis
    by blast
qed

text \<open>
  Claim C4 as written fails: after the tick at one second the problem \<open>1 + 1 = ?\<close>
  is still the current problem.
\<close>

theorem tick_keeps_problem:
  "reachable session1 \<and> phase_of session1 = PLAYING \<and> timeLeft session1 = 1
   \<and> phase_of (tick d0 session1) = OVER
   \<and> currentProblem (tick d0 session1)
       = Some \<lparr> num1 = 1, num2 = 1, operator = Plus, answer = 2 \<rparr>"
proof -
  have "phase_of session1 = PLAYING \<and> timeLeft session1 = 1
   \<and> phase_of (tick d0 session1) = OVER
   \<and> currentProblem (tick d0 session1)
       = Some \<lparr> num1 = 1, num2 = 1, operator = Plus, answer = 2 \<rparr>"
    unfolding session1_eq session10_eq d0_def by code_simp
  with reachable_session1 show ?thesis
    by simp
qed

text \<open>
  Claim C9. In a reachable session that is IDLE or OVER, a tick changes nothing, because
  no interval is live, and a submission changes nothing, because the handler returns at
  its guard; \<open>submitAnswer\<close> with a raw input changes the input buffer only.
\<close>

theorem ignored_outside_playing:
  assumes "reachable s" and "phase_of s = IDLE \<or> phase_of s = OVER"
  shows "tick r' s = s \<and> submit r r' s = s
       \<and> submitAnswer raw r r' s = s\<lparr> userAnswer := raw \<rparr>"
proof -
  have n: "\<not> gameStarted s \<or> isGameOver s"
    using assms(2) by (auto simp: idle_iff over_iff)
  have dead: "\<not> timerLive s"
    using reachable_inv [OF assms(1)] n by (auto simp: session_inv_def)
  have t: "tick r' s = s"
    using dead by (rule tick_not_live)
  have h: "handleAnswerSubmit r s = s"
    using n by (simp add: handleAnswerSubmit_ignored)
  have h': "handleAnswerSubmit r (s\<lparr> userAnswer := raw \<rparr>) = s\<lparr> userAnswer := raw \<rparr>"
    using n by (intro handleAnswerSubmit_ignored) simp
  from t h h' show ?thesis
    by (simp add: submit_eq submitAnswer_eq)
qed

theorem ignored_outside_playing_witness:
  "reachable sessionOver \<and> phase_of sessionOver = OVER
   \<and> tick d0 sessionOver = sessionOver \<and> submit d0 d0 sessionOver = sessionOver
   \<and> reachable init \<and> phase_of init = IDLE
   \<and> tick d0 init = init \<and> submitAnswer ''2'' d0 d0 init = init\<lparr> userAnswer := ''2'' \<rparr>"
proof -
  have o: "phase_of sessionOver = OVER"
    by (simp add: sessionOver_eq session10_eq phase_of_def)
  have i: "phase_of init = IDLE"
    by (simp add: init_def phase_of_def)
  from ignored_outside_playing [OF reachable_sessionOver disjI2 [OF o], of d0 d0]
    ignored_outside_playing [OF reachable_init disjI1 [OF i], of d0 d0 "''2''"]
    reachable_sessionOver reachable_init o i
  show ?thesis
    by blast
qed

section \<open>Reset\<close>

text \<open>
  Claim C8. From every state, whatever its phase, \<open>reset\<close> yields the IDLE phase with
  score 0, 60 seconds left, no current problem, no feedback message and an empty input.
\<close>

theorem reset_yields_idle:
  "phase_of (reset r' s) = IDLE \<and> score (reset r' s) = 0 \<and> timeLeft (reset r' s) = 60
   \<and> currentProblem (reset r' s) = None \<and> message (reset r' s) = NoMessage
   \<and> userAnswer (reset r' s) = [] \<and> \<not> timerLive (reset r' s)"
  by (simp add: reset_def resetGame_def effect_defs generateProblem_def phase_of_def)

section \<open>Invariants of the session\<close>

text \<open>
  Claim C10. In every reachable state the flags \<open>gameStarted\<close> and \<open>isGameOver\<close> are
  not both true, so the phase is IDLE exactly when both are false, PLAYING exactly when
  only \<open>gameStarted\<close> is true and OVER exactly when only \<open>isGameOver\<close> is true.
\<close>

theorem flags_exclusive:
  assumes "reachable s"
  shows "\<not> (gameStarted s \<and> isGameOver s)
       \<and> (phase_of s = IDLE) = (\<not> gameStarted s \<and> \<not> isGameOver s)
       \<and> (phase_of s = PLAYING) = (gameStarted s \<and> \<not> isGameOver s)
       \<and> (phase_of s = OVER) = (\<not> gameStarted s \<and> isGameOver s)"
  using reachable_inv [OF assms] by (auto simp: session_inv_def phase_of_def)

theorem flags_exclusive_witness:
  "reachable sessionOver \<and> isGameOver sessionOver \<and> \<not> gameStarted sessionOver
   \<and> phase_of sessionOver = OVER"
proof -
  have "isGameOver sessionOver"
    by (simp add: sessionOver_eq)
  with flags_exclusive [OF reachable_sessionOver] reachable_sessionOver show ?thesis
    by blast
qed

text \<open>
  Claim C2, as the code has it. In a reachable state with no time left the session is
  either OVER, or it is still PLAYING (a wrong answer has taken the last seconds) and
  the next tick of the interval ends it.
\<close>

theorem time_zero_ends_at_tick:
  assumes "reachable s" and "timeLeft s = 0"
  shows "phase_of s = OVER \<or> (phase_of s = PLAYING \<and> phase_of (tick r' s) = OVER)"
proof (cases "isGameOver s")
  case True
  then show ?thesis
    by (simp add: over_iff)
next
  case False
  have inv: "session_inv s"
    using assms(1) by (rule reachable_inv)
  have g: "gameStarted s"
    using inv False assms(2) by (auto simp: session_inv_def)
  have live: "timerLive s"
    using inv g False by (simp add: session_inv_def)
  have "tick r' s =
      s\<lparr> timerLive := False, isGameOver := True, gameStarted := False, timeLeft := 0 \<rparr>"
    using live assms(2) g False by (intro tick_expire) simp_all
  then have "phase_of (tick r' s) = OVER"
    by (simp add: phase_of_def)
  with g False show ?thesis
    by (simp add: playing_iff)
qed

theorem time_zero_ends_at_tick_witness:
  "reachable session0 \<and> timeLeft session0 = 0 \<and> phase_of session0 = PLAYING
   \<and> phase_of (tick d0 session0) = OVER"
proof -
  have z: "timeLeft session0 = 0"
    by (simp add: session0_eq)
  have p: "phase_of session0 = PLAYING"
    by (simp add: session0_eq session10_eq phase_of_def)
  from time_zero_ends_at_tick [OF reachable_session0 z, of d0] reachable_session0 z p
  show ?thesis
    by simp
qed

text \<open>
  Claim C2 as written fails: after a start and six wrong answers no time is left and the
  session is PLAYING, not OVER.
\<close>

theorem time_zero_while_playing:
  "reachable (run (Start d0 d0 # wrong @ wrong @ wrong @ wrong @ wrong @ wrong) init)
   \<and> timeLeft (run (Start d0 d0 # wrong @ wrong @ wrong @ wrong @ wrong @ wrong) init) = 0
   \<and> phase_of (run (Start d0 d0 # wrong @ wrong @ wrong @ wrong @ wrong @ wrong) init)
       = PLAYING"
proof -
  have "timeLeft (run (Start d0 d0 # wrong @ wrong @ wrong @ wrong @ wrong @ wrong) init) = 0
   \<and> phase_of (run (Start d0 d0 # wrong @ wrong @ wrong @ wrong @ wrong @ wrong) init)
       = PLAYING"
    unfolding wrong_def d0_def by code_simp
  moreover have
    "reachable (run (Start d0 d0 # wrong @ wrong @ wrong @ wrong @ wrong @ wrong) init)"
    by (rule reachable_run [OF reachable_init])
  ultimately show ?thesis
    by blast
qed

text \<open>A transition that leaves the session OVER leaves the current problem as it was.\<close>

lemma over_step_keeps_problem:
  assumes "phase_of (step e s) = OVER"
  shows "currentProblem (step e s) = currentProblem s"
proof (cases e)
  case (Start r r')
  with assms show ?thesis
    by (simp add: over_iff start_def startGame_def generateProblem_def effect_defs
        split: if_splits)
next
  case (SelectType pt r')
  with assms show ?thesis
    by (simp add: over_iff selectType_def setProblemType_def generateProblem_def effect_defs
        split: if_splits)
next
  case (TypeAnswer raw)
  then show ?thesis
    by (simp add: setUserAnswer_def)
next
  case (Submit r r')
  with assms have "isGameOver s"
    by (simp add: over_iff submit_eq handleAnswerSubmit_flags)
  with Submit show ?thesis
    by (simp add: submit_eq handleAnswerSubmit_ignored)
next
  case (Tick r')
  with assms show ?thesis
    by (cases "timerLive s"; cases "timeLeft s \<le> 1")
       (simp_all add: over_iff tick_def timerCallback_def generateProblem_def effect_defs
        split: if_splits)
next
  case (Reset r')
  with assms show ?thesis
    by (simp add: over_iff reset_def resetGame_def generateProblem_def effect_defs
        split: if_splits)
qed

text \<open>
  Claim C3, as the code has it. In every reachable state a current problem is present
  exactly when the session is PLAYING or OVER: it is absent in IDLE and present while
  playing. Every transition that leaves the session OVER, the tick that ends it as well
  as anything done once it has ended, leaves the current problem unchanged; so a
  session that is OVER keeps its last problem until a reset or a start.
\<close>

theorem problem_present_iff:
  assumes "reachable s"
  shows "(currentProblem s \<noteq> None) = (phase_of s = PLAYING \<or> phase_of s = OVER)
       \<and> (phase_of (step e s) = OVER \<longrightarrow>
            currentProblem (step e s) = currentProblem s
          \<and> currentProblem (step e s) \<noteq> None)"
proof -
  have present: "(currentProblem s \<noteq> None) = (phase_of s = PLAYING \<or> phase_of s = OVER)"
    using reachable_inv [OF assms] by (auto simp: session_inv_def phase_of_def)
  have kept: "currentProblem (step e s) = currentProblem s
      \<and> currentProblem (step e s) \<noteq> None" if o: "phase_of (step e s) = OVER"
  proof -
    have "session_inv (step e s)"
      using assms by (intro reachable_inv reachable_step)
    with o have "currentProblem (step e s) \<noteq> None"
      by (simp add: session_inv_def over_iff)
    with over_step_keeps_problem [OF o] show ?thesis
      by simp
  qed
  from present kept show ?thesis
    by blast
qed

theorem problem_present_iff_witness:
  "reachable session0 \<and> phase_of session0 = PLAYING
   \<and> currentProblem session0 = Some \<lparr> num1 = 1, num2 = 1, operator = Plus, answer = 2 \<rparr>
   \<and> phase_of (step (Tick d0) session0) = OVER
   \<and> currentProblem (step (Tick d0) session0)
       = Some \<lparr> num1 = 1, num2 = 1, operator = Plus, answer = 2 \<rparr>
   \<and> reachable sessionOver \<and> phase_of sessionOver = OVER
   \<and> currentProblem sessionOver \<noteq> None
   \<and> phase_of (step (Submit d0 d0) sessionOver) = OVER
   \<and> currentProblem (step (Submit d0 d0) sessionOver) = currentProblem sessionOver
   \<and> reachable init \<and> phase_of init = IDLE \<and> currentProblem init = None"
proof -
  have p0: "phase_of session0 = PLAYING"
    by (simp add: session0_eq session10_eq phase_of_def)
  have c0: "currentProblem session0
      = Some \<lparr> num1 = 1, num2 = 1, operator = Plus, answer = 2 \<rparr>"
    by (simp add: session0_eq session10_eq)
  have t0: "phase_of (step (Tick d0) session0) = OVER"
    unfolding session0_eq session10_eq d0_def by code_simp
  have po: "phase_of sessionOver = OVER"
    by (simp add: sessionOver_eq session10_eq phase_of_def)
  have so: "phase_of (step (Submit d0 d0) sessionOver) = OVER"
    unfolding sessionOver_eq session10_eq d0_def by code_simp
  have pi: "phase_of init = IDLE"
    by (simp add: init_def phase_of_def)
  note a = problem_present_iff [OF reachable_session0, of "Tick d0"]
  note b = problem_present_iff [OF reachable_sessionOver, of "Submit d0 d0"]
  note c = problem_present_iff [OF reachable_init, of "Tick d0"]
  from a t0 c0 have k0: "currentProblem (step (Tick d0) session0)
      = Some \<lparr> num1 = 1, num2 = 1, operator = Plus, answer = 2 \<rparr>"
    by simp
  from b po have no: "currentProblem sessionOver \<noteq> None"
    by simp
  from b so have ko: "currentProblem (step (Submit d0 d0) sessionOver)
      = currentProblem sessionOver"
    by blast
  from c pi have ni: "currentProblem init = None"
    by simp
  from reachable_session0 p0 c0 t0 k0 reachable_sessionOver po no so ko reachable_init pi ni
  show ?thesis
    by blast
qed

text \<open>
  Claim C3 as written fails: after a start, six wrong answers and one tick the session is
  OVER and the problem \<open>1 + 1 = ?\<close> is still present.
\<close>

theorem problem_present_when_over:
  "reachable sessionOver \<and> phase_of sessionOver = OVER
   \<and> currentProblem sessionOver
       = Some \<lparr> num1 = 1, num2 = 1, operator = Plus, answer = 2 \<rparr>"
  using reachable_sessionOver by (simp add: sessionOver_eq session10_eq phase_of_def)


end
